theory Spec2Isabelle
  imports Main "HOL-Library.Word"
begin

unbundle bit_operations_syntax

section \<open>The MD5 checker (utility/md5-checker)\<close>

text \<open>
  The program draws random strings, hashes each with MD5 and reports those whose digest
  buffer contains a pattern. This theory embeds its three functions
  (\<open>generate_string\<close>, \<open>search_md5_containing\<close>, \<open>main\<close>) together with the
  library functions they call, and proves properties of them. The fourth function of
  the file, \<open>print_integral_string\<close>, is never called.
\<close>

subsection \<open>Bytes and strings\<close>

text \<open>
  \<open>md5_string\<close> is \<open>std::basic_string<unsigned char>\<close>: a sequence of bytes with
  its own length, which may contain NUL bytes. A C string (\<open>char const*\<close>) is given by
  its bytes; \<open>c_str\<close> is the part that a reader of a NUL-terminated string sees.
\<close>

type_synonym byte = "8 word"
type_synonym md5_string = "byte list"

definition c_str :: "byte list \<Rightarrow> byte list" where
  "c_str s = takeWhile (\<lambda>c. c \<noteq> 0) s"

definition strlen :: "byte list \<Rightarrow> nat" where
  "strlen s = length (c_str s)"

definition bytes :: "string \<Rightarrow> byte list" where
  "bytes s = map of_char s"

text \<open>\<open>tolower\<close>, \<open>isspace\<close> and \<open>isdigit\<close> of the C locale.\<close>

definition tolower :: "byte \<Rightarrow> byte" where
  "tolower c = (if 0x41 \<le> c \<and> c \<le> 0x5A then c + 0x20 else c)"

definition isspace :: "byte \<Rightarrow> bool" where
  "isspace c = (c = 0x20 \<or> (0x09 \<le> c \<and> c \<le> 0x0D))"

definition isdigit :: "byte \<Rightarrow> bool" where
  "isdigit c = (0x30 \<le> c \<and> c \<le> 0x39)"

text \<open>
  \<open>text.find(pat)\<close> of \<open>std::basic_string\<close>: the first position at which \<open>pat\<close>
  occurs in \<open>text\<close>, or \<open>npos\<close> (here \<open>None\<close>). The empty pattern occurs at 0.
\<close>

fun find_str :: "md5_string \<Rightarrow> md5_string \<Rightarrow> nat option" where
  "find_str [] pat = (if pat = [] then Some 0 else None)"
| "find_str (x # xs) pat =
     (if take (length pat) (x # xs) = pat then Some 0
      else map_option Suc (find_str xs pat))"

subsection \<open>The hash function\<close>

text \<open>
  Modelled from the spec: the hash computation (spec 4.2, "a standard, publicly specified
  one-way hash algorithm") is the function \<open>MD5(d, n, md)\<close> of \<open>openssl/md5.h\<close>, whose
  code is outside the repository. The definition follows RFC 1321: the message is padded
  to a multiple of 64 bytes, each block of sixteen little-endian 32-bit words goes through
  64 steps, and the four state words are written out little-endian, 16 bytes in all.
\<close>

type_synonym u32 = "32 word"

definition MD5_DIGEST_LENGTH :: nat where
  "MD5_DIGEST_LENGTH = 16"

definition md5_K :: "u32 list" where
  "md5_K =
    [0xd76aa478, 0xe8c7b756, 0x242070db, 0xc1bdceee,
     0xf57c0faf, 0x4787c62a, 0xa8304613, 0xfd469501,
     0x698098d8, 0x8b44f7af, 0xffff5bb1, 0x895cd7be,
     0x6b901122, 0xfd987193, 0xa679438e, 0x49b40821,
     0xf61e2562, 0xc040b340, 0x265e5a51, 0xe9b6c7aa,
     0xd62f105d, 0x02441453, 0xd8a1e681, 0xe7d3fbc8,
     0x21e1cde6, 0xc33707d6, 0xf4d50d87, 0x455a14ed,
     0xa9e3e905, 0xfcefa3f8, 0x676f02d9, 0x8d2a4c8a,
     0xfffa3942, 0x8771f681, 0x6d9d6122, 0xfde5380c,
     0xa4beea44, 0x4bdecfa9, 0xf6bb4b60, 0xbebfbc70,
     0x289b7ec6, 0xeaa127fa, 0xd4ef3085, 0x04881d05,
     0xd9d4d039, 0xe6db99e5, 0x1fa27cf8, 0xc4ac5665,
     0xf4292244, 0x432aff97, 0xab9423a7, 0xfc93a039,
     0x655b59c3, 0x8f0ccc92, 0xffeff47d, 0x85845dd1,
     0x6fa87e4f, 0xfe2ce6e0, 0xa3014314, 0x4e0811a1,
     0xf7537e82, 0xbd3af235, 0x2ad7d2bb, 0xeb86d391]"

definition md5_S :: "nat list" where
  "md5_S =
    [7, 12, 17, 22, 7, 12, 17, 22, 7, 12, 17, 22, 7, 12, 17, 22,
     5, 9, 14, 20, 5, 9, 14, 20, 5, 9, 14, 20, 5, 9, 14, 20,
     4, 11, 16, 23, 4, 11, 16, 23, 4, 11, 16, 23, 4, 11, 16, 23,
     6, 10, 15, 21, 6, 10, 15, 21, 6, 10, 15, 21, 6, 10, 15, 21]"

definition rotl32 :: "nat \<Rightarrow> u32 \<Rightarrow> u32" where
  "rotl32 n x = push_bit n x OR drop_bit (32 - n) x"

definition le32 :: "byte list \<Rightarrow> u32" where
  "le32 bs = foldr (\<lambda>b w. ucast b OR push_bit 8 w) (take 4 bs) 0"

definition le_bytes :: "nat \<Rightarrow> 'a::len word \<Rightarrow> byte list" where
  "le_bytes n w = map (\<lambda>i. ucast (drop_bit (8 * i) w)) [0..<n]"

type_synonym md5_state = "u32 \<times> u32 \<times> u32 \<times> u32"

definition md5_step :: "u32 list \<Rightarrow> md5_state \<Rightarrow> nat \<Rightarrow> md5_state" where
  "md5_step M st i =
     (case st of (A, B, C, D) \<Rightarrow>
        let (F, g) =
              (if i < 16 then ((B AND C) OR (NOT B AND D), i)
               else if i < 32 then ((D AND B) OR (NOT D AND C), (5 * i + 1) mod 16)
               else if i < 48 then (B XOR C XOR D, (3 * i + 5) mod 16)
               else (C XOR (B OR NOT D), (7 * i) mod 16))
        in (D, B + rotl32 (md5_S ! i) (F + A + md5_K ! i + M ! g), B, C))"

definition md5_block :: "md5_state \<Rightarrow> byte list \<Rightarrow> md5_state" where
  "md5_block st blk =
     (case st of (a0, b0, c0, d0) \<Rightarrow>
        let M = map (\<lambda>j. le32 (drop (4 * j) blk)) [0..<16] in
        case foldl (md5_step M) st [0..<64] of
          (A, B, C, D) \<Rightarrow> (a0 + A, b0 + B, c0 + C, d0 + D))"

definition md5_pad :: "byte list \<Rightarrow> byte list" where
  "md5_pad msg =
     msg @ [0x80] @ replicate ((119 - length msg mod 64) mod 64) 0
         @ le_bytes 8 (8 * of_nat (length msg) :: 64 word)"

fun md5_blocks :: "byte list \<Rightarrow> byte list list" where
  "md5_blocks bs = (if bs = [] then [] else take 64 bs # md5_blocks (drop 64 bs))"

definition MD5 :: "byte list \<Rightarrow> byte list" where
  "MD5 msg =
     (case foldl md5_block (0x67452301, 0xefcdab89, 0x98badcfe, 0x10325476)
             (md5_blocks (md5_pad msg)) of
        (a, b, c, d) \<Rightarrow> concat (map (\<lambda>w. le_bytes 4 w) [a, b, c, d]))"

subsection \<open>strtoul\<close>

text \<open>
  \<open>strtoul(s, NULL, 10)\<close> of the C library (ISO C 7.22.1.4) on a 64-bit
  \<open>unsigned long\<close>: white space is skipped, one sign is accepted, the longest run of
  decimal digits is read and whatever follows is ignored. Without any digit the result is
  0; a value beyond \<open>ULONG_MAX\<close> gives \<open>ULONG_MAX\<close>; a minus sign negates the value
  in the unsigned type.
\<close>

definition strtoul :: "byte list \<Rightarrow> 64 word" where
  "strtoul s =
     (let s1 = dropWhile isspace (c_str s);
          neg = (s1 \<noteq> [] \<and> hd s1 = 0x2D);
          s2 = (if s1 \<noteq> [] \<and> (hd s1 = 0x2B \<or> hd s1 = 0x2D) then tl s1 else s1);
          v = foldl (\<lambda>a d. 10 * a + unat (d - 0x30)) (0::nat) (takeWhile isdigit s2)
      in if 2 ^ 64 \<le> v then - 1
         else if neg then - of_nat v
         else of_nat v)"

subsection \<open>Generating a candidate\<close>

text \<open>
  \<open>static char charset[] = "0123456789abcdefghjklmnopqrstuvwxyz"\<close>: 35 characters and
  the terminating NUL, so \<open>sizeof(charset)\<close> is 36.
\<close>

definition charset :: "byte list" where
  "charset = bytes ''0123456789abcdefghjklmnopqrstuvwxyz'' @ [0]"

definition sizeof_charset :: "64 word" where
  "sizeof_charset = 36"

text \<open>
  \<open>charset[idx]\<close> with a \<open>size_t\<close> index. Inside the array it is the array's element.
  C++ does not check the index: outside the array the read is undefined behaviour, and
  what the machine code does is read the process memory at that offset from the array.
  That memory is not part of the program text, so it is a parameter: \<open>around idx\<close> is
  the byte found at offset \<open>idx\<close> (modulo \<open>2^64\<close>) from the start of \<open>charset\<close>.
\<close>

definition charset_at :: "(64 word \<Rightarrow> byte) \<Rightarrow> 64 word \<Rightarrow> byte" where
  "charset_at around idx =
     (if idx < sizeof_charset then charset ! unat idx else around idx)"

text \<open>
  \<open>charset[rand() % sizeof(charset) - 1]\<close> for the value \<open>r\<close> that \<open>rand()\<close>
  returned. \<open>%\<close> binds tighter than \<open>-\<close>; the \<open>int\<close> is converted to \<open>size_t\<close>
  (\<open>scast\<close>), and the subtraction is done in \<open>size_t\<close>, where it wraps.
\<close>

definition pick :: "(64 word \<Rightarrow> byte) \<Rightarrow> 32 word \<Rightarrow> byte" where
  "pick around r = charset_at around (scast r mod sizeof_charset - 1)"

datatype error = Length_Error

text \<open>
  \<open>rand()\<close> keeps its state in the C library. It is modelled by the sequence of the
  values it returns: \<open>rand c\<close> is the result of the call made after \<open>c\<close> earlier calls,
  and the program state counts the calls. \<open>generate_string\<close> returns the new contents of
  \<open>result\<close> and the new count. \<open>result.resize(size)\<close> converts the \<open>int\<close> to
  \<open>size_t\<close> and throws \<open>std::length_error\<close> for a negative one (\<open>sz\<close> is the parameter
  \<open>size\<close>); otherwise the loop
  overwrites every position \<open>i < size\<close>, in order, with one picked character.
\<close>

definition generate_string ::
  "(64 word \<Rightarrow> byte) \<Rightarrow> (nat \<Rightarrow> 32 word) \<Rightarrow> nat \<Rightarrow> int \<Rightarrow> error + (md5_string \<times> nat)" where
  "generate_string around rand c sz =
     (if sz < 0 then Inl Length_Error
      else Inr (map (\<lambda>i. pick around (rand (c + i))) [0..<nat sz], c + nat sz))"

subsection \<open>The search loop\<close>

text \<open>
  What the program writes to \<open>std::cout\<close>, one event for each output statement:
  \<open>Progress k\<close> is the line \<open>At k0M\<close> and \<open>Found t d\<close> is the line \<open>t --> d\<close>,
  where both strings are printed through \<open>c_str()\<close>, that is up to their first NUL.
\<close>

datatype event = Progress int | Found md5_string md5_string

fun is_Found :: "event \<Rightarrow> bool" where
  "is_Found (Found t d) = True"
| "is_Found (Progress n) = False"

fun markers :: "event list \<Rightarrow> int list" where
  "markers [] = []"
| "markers (Progress n # es) = n # markers es"
| "markers (Found t d # es) = markers es"

text \<open>
  The variables of the function: the strings \<open>tmp\<close> and \<open>md5\<close>, the \<open>int\<close> counter
  \<open>k\<close> (32 bits; \<open>++k\<close> is taken to wrap around as the machine instruction does, and the
  value is printed signed), the number of calls of \<open>rand()\<close> so far, and the output so
  far. \<open>iterations\<close> is not a variable of the program: it counts the executions of the
  loop body, so that statements about their number can be written down.
\<close>

record state =
  tmp :: md5_string
  md5 :: md5_string
  k :: "32 word"
  calls :: nat
  out :: "event list"
  iterations :: nat

text \<open>
  \<open>pattern\<close> has the length of \<open>substr\<close> and holds its characters in lower case.
  (\<open>std::transform\<close> runs up to \<open>pattern.capacity()\<close>, which is at least the size; what
  it writes beyond the size is no part of the string that \<open>find\<close> compares.)
\<close>

definition make_pattern :: "byte list \<Rightarrow> md5_string" where
  "make_pattern substr = map tolower (take (strlen substr) substr)"

text \<open>\<open>if (i % 10'000'000ull == 0) std::cout << "At " << ++k << "0M" << '\n';\<close>\<close>

definition progress :: "64 word \<Rightarrow> state \<Rightarrow> state" where
  "progress i s =
     (if i mod 10000000 = 0
      then s\<lparr>k := k s + 1, out := out s @ [Progress (sint (k s + 1))]\<rparr>
      else s)"

text \<open>
  \<open>MD5(tmp.c_str(), tmp.size(), md5.c_str())\<close> writes the digest of the bytes of
  \<open>tmp\<close> over the first \<open>MD5_DIGEST_LENGTH\<close> bytes of the buffer of \<open>md5\<close>.
\<close>

definition MD5_call :: "state \<Rightarrow> state" where
  "MD5_call s = s\<lparr>md5 := MD5 (tmp s) @ drop MD5_DIGEST_LENGTH (md5 s)\<rparr>"

text \<open>
  \<open>if (md5.find(pattern) != md5.npos) std::cout << tmp.c_str() << " --> " << md5.c_str() << '\n';\<close>
\<close>

definition report :: "md5_string \<Rightarrow> state \<Rightarrow> state" where
  "report pattern s =
     (if find_str (md5 s) pattern \<noteq> None
      then s\<lparr>out := out s @ [Found (c_str (tmp s)) (c_str (md5 s))]\<rparr>
      else s)"

text \<open>One execution of the loop body, for the loop counter \<open>i\<close>.\<close>

definition body ::
  "(64 word \<Rightarrow> byte) \<Rightarrow> (nat \<Rightarrow> 32 word) \<Rightarrow> md5_string \<Rightarrow> int \<Rightarrow> 64 word \<Rightarrow> state
     \<Rightarrow> error + state" where
  "body around rand pattern str_size i s =
     (let s1 = progress i s in
      case generate_string around rand (calls s1) str_size of
        Inl e \<Rightarrow> Inl e
      | Inr (t, c) \<Rightarrow>
          Inr ((report pattern (MD5_call (s1\<lparr>tmp := t, calls := c\<rparr>)))
                 \<lparr>iterations := Suc (iterations s1)\<rparr>))"

text \<open>
  \<open>for (size_t i = 1; i < ulimit; ++i)\<close>, from the counter value \<open>i\<close> on. The counter
  stays below \<open>ulimit\<close>, so \<open>++i\<close> never wraps and the loop ends.
\<close>

function loop ::
  "(64 word \<Rightarrow> byte) \<Rightarrow> (nat \<Rightarrow> 32 word) \<Rightarrow> md5_string \<Rightarrow> int \<Rightarrow> 64 word \<Rightarrow> 64 word \<Rightarrow> state
     \<Rightarrow> error + state" where
  "loop around rand pattern str_size ulimit i s =
     (if i < ulimit then
        (case body around rand pattern str_size i s of
           Inl e \<Rightarrow> Inl e
         | Inr s' \<Rightarrow> loop around rand pattern str_size ulimit (i + 1) s')
      else Inr s)"
  by pat_completeness auto
termination
proof (relation "measure (\<lambda>(around, rand, pattern, str_size, ulimit, i, s). unat ulimit - unat i)")
  show "wf (measure (\<lambda>(around, rand, pattern, str_size, ulimit, i, s). unat ulimit - unat i))"
    by simp
next
  fix around :: "64 word \<Rightarrow> byte" and rand :: "nat \<Rightarrow> 32 word" and pattern :: md5_string
    and str_size :: int and ulimit i :: "64 word" and s x2 :: state
  assume lt: "i < ulimit"
  then have "unat (i + 1) = Suc (unat i)"
    by unat_arith
  moreover from lt have "unat i < unat ulimit"
    by (simp add: word_less_nat_alt)
  ultimately show "((around, rand, pattern, str_size, ulimit, i + 1, x2),
                    (around, rand, pattern, str_size, ulimit, i, s))
      \<in> measure (\<lambda>(around, rand, pattern, str_size, ulimit, i, s). unat ulimit - unat i)"
    by simp
qed

definition init :: state where
  "init = \<lparr>tmp = [], md5 = replicate 130 0, k = 0, calls = 0, out = [], iterations = 0\<rparr>"

definition search_md5_containing ::
  "(64 word \<Rightarrow> byte) \<Rightarrow> (nat \<Rightarrow> 32 word) \<Rightarrow> byte list \<Rightarrow> int \<Rightarrow> 64 word \<Rightarrow> error + state" where
  "search_md5_containing around rand substr str_size ulimit =
     loop around rand (make_pattern substr) str_size ulimit 1 init"

subsection \<open>The entry point\<close>

text \<open>
  \<open>argv\<close> is the list of the program's arguments, the program's name first, so \<open>argc\<close>
  is its length. \<open>int ulimit\<close> receives the \<open>unsigned long\<close> of \<open>strtoul\<close> cut to 32
  bits; the call converts it to the \<open>size_t\<close> parameter with sign extension.
\<close>

definition main_ulimit :: "byte list list \<Rightarrow> 32 word" where
  "main_ulimit argv = (if 1 < length argv then ucast (strtoul (argv ! 1)) else 100)"

definition quote_eq_quote :: "byte list" where
  "quote_eq_quote = [0x27, 0x3D, 0x27]"

definition main ::
  "(64 word \<Rightarrow> byte) \<Rightarrow> (nat \<Rightarrow> 32 word) \<Rightarrow> byte list list \<Rightarrow> error + state" where
  "main around rand argv =
     search_md5_containing around rand quote_eq_quote 10 (scast (main_ulimit argv))"

subsection \<open>Notions used in the statements\<close>

text \<open>
  The events that a run has printed, and the contents of \<open>md5\<close> when it ends: the
  string that the last match test searched. A run ends with \<open>Length_Error\<close> only when
  the first execution of the body throws, before anything has been printed or hashed.
\<close>

definition printed :: "error + state \<Rightarrow> event list" where
  "printed r = (case r of Inl e \<Rightarrow> [] | Inr s \<Rightarrow> out s)"


text \<open>
  The candidate that \<open>generate_string\<close> produces for length \<open>n\<close> after \<open>c\<close> calls of
  \<open>rand()\<close>, and the first \<open>m\<close> candidates of a run that starts after \<open>c\<close> calls.
\<close>

definition candidate :: "(64 word \<Rightarrow> byte) \<Rightarrow> (nat \<Rightarrow> 32 word) \<Rightarrow> nat \<Rightarrow> nat \<Rightarrow> md5_string" where
  "candidate around rand n c = map (\<lambda>i. pick around (rand (c + i))) [0..<n]"

definition candidates ::
  "(64 word \<Rightarrow> byte) \<Rightarrow> (nat \<Rightarrow> 32 word) \<Rightarrow> nat \<Rightarrow> nat \<Rightarrow> nat \<Rightarrow> md5_string list" where
  "candidates around rand n c m = map (\<lambda>j. candidate around rand n (c + n * j)) [0..<m]"

text \<open>
  The 130 bytes of \<open>md5\<close> once the digest of \<open>t\<close> has been written over the first 16
  of 130 zero bytes; whether the pattern occurs in them; and the line printed if it does.
\<close>

definition digest_buffer :: "md5_string \<Rightarrow> md5_string" where
  "digest_buffer t = MD5 t @ replicate 114 0"

definition matches :: "md5_string \<Rightarrow> md5_string \<Rightarrow> bool" where
  "matches pattern t = (find_str (digest_buffer t) pattern \<noteq> None)"

definition match_line :: "md5_string \<Rightarrow> event" where
  "match_line t = Found (c_str t) (c_str (digest_buffer t))"

text \<open>The invariant of \<open>md5\<close>: 130 bytes, all zero from position 16 on.\<close>

definition zero_tail :: "state \<Rightarrow> bool" where
  "zero_tail s = (length (md5 s) = 130 \<and> drop 16 (md5 s) = replicate 114 0)"

text \<open>The number of counter values in \<open>[a, b)\<close> that are multiples of 10,000,000.\<close>

definition multiples :: "nat \<Rightarrow> nat \<Rightarrow> nat" where
  "multiples a b = length (filter (\<lambda>j. j mod 10000000 = 0) [a..<b])"

text \<open>
  Concrete inputs: memory that holds zero bytes around \<open>charset\<close>; a \<open>rand()\<close> that
  always returns 1, so that every candidate is a row of the character 0; a \<open>rand()\<close>
  whose results repeat with period 10, so that every candidate of length 10 is the string
  \<open>0p5wg2y32b\<close>, with its digest; and a \<open>rand()\<close> that always returns 36.
\<close>

definition zero_memory :: "64 word \<Rightarrow> byte" where
  "zero_memory idx = 0"

definition rand_one :: "nat \<Rightarrow> 32 word" where
  "rand_one c = 1"

definition rand_cycle :: "nat \<Rightarrow> 32 word" where
  "rand_cycle c = [1, 25, 6, 32, 17, 3, 34, 4, 3, 12] ! (c mod 10)"

definition found_candidate :: md5_string where
  "found_candidate = bytes ''0p5wg2y32b''"

definition found_digest :: md5_string where
  "found_digest =
     [0x6e, 0x62, 0x2f, 0x67, 0x89, 0x41, 0xd2, 0x50, 0x27, 0x3d, 0x27, 0x0f, 0x51, 0x24, 0x36, 0xdd]"

definition rand_36 :: "nat \<Rightarrow> 32 word" where
  "rand_36 c = 36"

text \<open>
  The 35 characters of \<open>charset\<close> before its terminating NUL, and the hexadecimal
  digits.
\<close>

definition alphabet :: "byte list" where
  "alphabet = take 35 charset"

definition isxdigit :: "byte \<Rightarrow> bool" where
  "isxdigit c =
     ((0x30 \<le> c \<and> c \<le> 0x39) \<or> (0x41 \<le> c \<and> c \<le> 0x46) \<or> (0x61 \<le> c \<and> c \<le> 0x66))"

text \<open>
  Command-line arguments: the decimal numeral of a number, without sign or leading
  zeros, and the arguments in which \<open>strtoul\<close> finds no number at all, because they
  are empty or begin with a character that is neither a digit, a sign nor white space.
\<close>

fun decimal :: "nat \<Rightarrow> byte list" where
  "decimal n =
     (if n < 10 then [0x30 + of_nat n]
      else decimal (n div 10) @ [0x30 + of_nat (n mod 10)])"

definition starts_no_number :: "byte list \<Rightarrow> bool" where
  "starts_no_number s =
     (case s of [] \<Rightarrow> True
      | c # cs \<Rightarrow> \<not> isdigit c \<and> \<not> isspace c \<and> c \<noteq> 0x2B \<and> c \<noteq> 0x2D)"

definition plain_digit :: "byte \<Rightarrow> bool" where
  "plain_digit c = (isdigit c \<and> \<not> isspace c \<and> c \<noteq> 0 \<and> c \<noteq> 0x2B \<and> c \<noteq> 0x2D)"

section \<open>Properties\<close>

subsection \<open>The steps of the loop body\<close>

declare loop.simps [simp del]
declare md5_blocks.simps [simp del]
declare decimal.simps [simp del]

lemma counter_mod_nat: "((i::64 word) mod 10000000 = 0) = (unat i mod 10000000 = 0)"
proof -
  have "unat (i mod 10000000) = unat i mod 10000000"
    by (simp add: unat_mod)
  then show ?thesis
    by (metis unat_eq_0)
qed

lemma counter_succ: "i < (u::64 word) \<Longrightarrow> unat (i + 1) = Suc (unat i)"
  by unat_arith

lemma counter_less: "(i < (u::64 word)) = (unat i < unat u)"
  by (simp add: word_less_nat_alt)

lemma progress_frame [simp]:
  "tmp (progress i s) = tmp s" "md5 (progress i s) = md5 s"
  "calls (progress i s) = calls s" "iterations (progress i s) = iterations s"
  by (simp_all add: progress_def)

lemma progress_k: "k (progress i s) = (if unat i mod 10000000 = 0 then k s + 1 else k s)"
  by (simp add: progress_def counter_mod_nat)

lemma progress_out:
  "out (progress i s) = out s @ (if unat i mod 10000000 = 0 then [Progress (sint (k s + 1))] else [])"
  by (simp add: progress_def counter_mod_nat)

lemma MD5_call_frame [simp]:
  "tmp (MD5_call s) = tmp s" "k (MD5_call s) = k s" "calls (MD5_call s) = calls s"
  "iterations (MD5_call s) = iterations s" "out (MD5_call s) = out s"
  "md5 (MD5_call s) = MD5 (tmp s) @ drop MD5_DIGEST_LENGTH (md5 s)"
  by (simp_all add: MD5_call_def)

lemma report_frame [simp]:
  "tmp (report p s) = tmp s" "md5 (report p s) = md5 s" "k (report p s) = k s"
  "calls (report p s) = calls s" "iterations (report p s) = iterations s"
  by (simp_all add: report_def)

lemma report_out:
  "out (report p s) =
     out s @ (if find_str (md5 s) p \<noteq> None then [Found (c_str (tmp s)) (c_str (md5 s))] else [])"
  by (simp add: report_def)

lemma body_Inr:
  assumes "0 \<le> n"
  shows "body around rand p n i s =
    Inr ((report p (MD5_call ((progress i s)
            \<lparr>tmp := candidate around rand (nat n) (calls s), calls := calls s + nat n\<rparr>)))
          \<lparr>iterations := Suc (iterations s)\<rparr>)"
  using assms by (simp add: body_def generate_string_def candidate_def Let_def)

lemma body_fields:
  assumes "0 \<le> n" and "body around rand p n i s = Inr s1"
  shows "iterations s1 = Suc (iterations s)"
    and "calls s1 = calls s + nat n"
    and "tmp s1 = candidate around rand (nat n) (calls s)"
    and "md5 s1 = MD5 (tmp s1) @ drop MD5_DIGEST_LENGTH (md5 s)"
    and "k s1 = (if unat i mod 10000000 = 0 then k s + 1 else k s)"
    and "out s1 = out s
           @ (if unat i mod 10000000 = 0 then [Progress (sint (k s + 1))] else [])
           @ (if find_str (md5 s1) p \<noteq> None then [Found (c_str (tmp s1)) (c_str (md5 s1))] else [])"
  using assms(2) unfolding body_Inr [OF assms(1)]
  by (auto simp add: report_out progress_out progress_k)

subsection \<open>The loop\<close>

lemma loop_Inr:
  "0 \<le> n \<Longrightarrow> \<exists>s'. loop around rand p n u i s = Inr s'"
proof (induction around rand p n u i s rule: loop.induct)
  case (1 around rand p n u i s)
  show ?case
  proof (cases "i < u")
    case True
    obtain s1 where b: "body around rand p n i s = Inr s1"
      using body_Inr [OF "1.prems"] by blast
    with True "1.IH" [OF True b "1.prems"] show ?thesis
      by (subst loop.simps) simp
  next
    case False
    then show ?thesis by (subst loop.simps) simp
  qed
qed

text \<open>One unfolding of the loop, for a body that returns.\<close>

lemma loop_step:
  "i < u \<Longrightarrow> body around rand p n i s = Inr s1 \<Longrightarrow>
     loop around rand p n u i s = loop around rand p n u (i + 1) s1"
  by (subst loop.simps) simp

lemma loop_stop: "\<not> i < u \<Longrightarrow> loop around rand p n u i s = Inr s"
  by (subst loop.simps) simp

text \<open>
  The proof rule of the loop: a relation between the counter, the state at the loop head
  and the final state holds once it holds at the exit and is carried backwards over one
  execution of the body.
\<close>

lemma loop_rule:
  assumes n: "0 \<le> n"
    and run: "loop around rand p n u i s = Inr s'"
    and exit: "\<And>i s. \<not> i < u \<Longrightarrow> P i s s"
    and step: "\<And>i s s1 s'. i < u \<Longrightarrow> body around rand p n i s = Inr s1 \<Longrightarrow>
                 loop around rand p n u (i + 1) s1 = Inr s' \<Longrightarrow> P (i + 1) s1 s' \<Longrightarrow> P i s s'"
  shows "P i s s'"
  using n run exit step
proof (induction around rand p n u i s rule: loop.induct)
  case (1 around rand p n u i s)
  note exit = "1.prems"(3) and step = "1.prems"(4)
  show ?case
  proof (cases "i < u")
    case True
    obtain s1 where b: "body around rand p n i s = Inr s1"
      using body_Inr [OF "1.prems"(1)] by blast
    have run: "loop around rand p n u (i + 1) s1 = Inr s'"
      using loop_step [OF True b] "1.prems"(2) by simp
    have "P (i + 1) s1 s'"
      by (rule "1.IH" [OF True b "1.prems"(1) run exit step])
    then show ?thesis
      by (rule step [OF True b run])
  next
    case False
    then have "s' = s"
      using "1.prems"(2) by (simp add: loop_stop)
    with False exit show ?thesis by simp
  qed
qed

lemma loop_counts:
  assumes "0 \<le> n" and "loop around rand p n u i s = Inr s'"
  shows "iterations s' = iterations s + (unat u - unat i)
     \<and> calls s' = calls s + nat n * (unat u - unat i)"
  using assms
proof (rule loop_rule)
  fix i :: "64 word" and s :: state
  assume "\<not> i < u"
  then have "unat u - unat i = 0"
    by (simp add: counter_less)
  then show "iterations s = iterations s + (unat u - unat i)
     \<and> calls s = calls s + nat n * (unat u - unat i)"
    by simp
next
  fix i :: "64 word" and s s1 s' :: state
  assume lt: "i < u" and b: "body around rand p n i s = Inr s1"
    and ih: "iterations s' = iterations s1 + (unat u - unat (i + 1))
     \<and> calls s' = calls s1 + nat n * (unat u - unat (i + 1))"
  have "unat u - unat i = Suc (unat u - unat (i + 1))"
    using lt by (simp add: counter_succ [OF lt] counter_less)
  with ih body_fields(1,2) [OF assms(1) b]
  show "iterations s' = iterations s + (unat u - unat i)
     \<and> calls s' = calls s + nat n * (unat u - unat i)"
    by simp
qed

lemma markers_append: "markers (xs @ ys) = markers xs @ markers ys"
  by (induction xs rule: markers.induct) simp_all

lemma upt_Suc_shift: "map f [1..<Suc (Suc c)] = f 1 # map (\<lambda>m. f (Suc m)) [1..<Suc c]"
proof -
  have "[1..<Suc (Suc c)] = 1 # map Suc [1..<Suc c]"
    by (metis One_nat_def map_Suc_upt upt_conv_Cons zero_less_Suc Suc_less_eq)
  then show ?thesis
    by (simp add: comp_def)
qed

lemma multiples_step:
  "a < b \<Longrightarrow> multiples a b = (if a mod 10000000 = 0 then Suc (multiples (Suc a) b) else multiples (Suc a) b)"
  by (simp add: multiples_def upt_conv_Cons)

lemma multiples_none: "\<not> a < b \<Longrightarrow> multiples a b = 0"
  by (simp add: multiples_def)

lemma loop_markers:
  assumes "0 \<le> n" and "loop around rand p n u i s = Inr s'"
  shows "markers (out s') =
           markers (out s) @ map (\<lambda>m. sint (k s + of_nat m)) [1..<Suc (multiples (unat i) (unat u))]
     \<and> k s' = k s + of_nat (multiples (unat i) (unat u))"
  using assms
proof (rule loop_rule)
  fix i :: "64 word" and s :: state
  assume "\<not> i < u"
  then have "multiples (unat i) (unat u) = 0"
    by (simp add: counter_less multiples_none)
  then show "markers (out s) =
           markers (out s) @ map (\<lambda>m. sint (k s + of_nat m)) [1..<Suc (multiples (unat i) (unat u))]
     \<and> k s = k s + of_nat (multiples (unat i) (unat u))"
    by simp
next
  fix i :: "64 word" and s s1 s' :: state
  assume lt: "i < u" and b: "body around rand p n i s = Inr s1"
    and ih: "markers (out s') =
           markers (out s1) @ map (\<lambda>m. sint (k s1 + of_nat m)) [1..<Suc (multiples (unat (i + 1)) (unat u))]
     \<and> k s' = k s1 + of_nat (multiples (unat (i + 1)) (unat u))"
  let ?c = "multiples (Suc (unat i)) (unat u)"
  have m: "multiples (unat i) (unat u) = (if unat i mod 10000000 = 0 then Suc ?c else ?c)"
    using lt by (simp add: multiples_step counter_less)
  have ks: "k s1 = (if unat i mod 10000000 = 0 then k s + 1 else k s)"
    by (rule body_fields(5) [OF assms(1) b])
  have os: "markers (out s1) = markers (out s) @ (if unat i mod 10000000 = 0 then [sint (k s + 1)] else [])"
    by (simp add: body_fields(6) [OF assms(1) b] markers_append)
  show "markers (out s') =
           markers (out s) @ map (\<lambda>m. sint (k s + of_nat m)) [1..<Suc (multiples (unat i) (unat u))]
     \<and> k s' = k s + of_nat (multiples (unat i) (unat u))"
  proof (cases "unat i mod 10000000 = 0")
    case True
    have "map (\<lambda>m. sint (k s + of_nat m)) [1..<Suc (Suc ?c)]
        = sint (k s + of_nat 1) # map (\<lambda>m. sint (k s + of_nat (Suc m))) [1..<Suc ?c]"
      by (rule upt_Suc_shift)
    also have "\<dots> = sint (k s + 1) # map (\<lambda>m. sint (k s + 1 + of_nat m)) [1..<Suc ?c]"
      by (simp add: add.assoc del: upt_Suc)
    finally have shift: "map (\<lambda>m. sint (k s + of_nat m)) [1..<Suc (Suc ?c)]
        = sint (k s + 1) # map (\<lambda>m. sint (k s + 1 + of_nat m)) [1..<Suc ?c]" .
    have "markers (out s') = markers (out s)
        @ (sint (k s + 1) # map (\<lambda>m. sint (k s + 1 + of_nat m)) [1..<Suc ?c])"
      using True ih ks os by (simp add: counter_succ [OF lt] del: upt_Suc)
    then have "markers (out s') = markers (out s)
        @ map (\<lambda>m. sint (k s + of_nat m)) [1..<Suc (Suc ?c)]"
      by (simp only: shift)
    moreover have "k s' = k s + of_nat (Suc ?c)"
      using True ih ks by (simp add: counter_succ [OF lt] add.assoc)
    ultimately show ?thesis
      using True by (simp only: m if_True simp_thms)
  next
    case False
    with ih m ks os show ?thesis
      by (simp add: counter_succ [OF lt] del: upt_Suc)
  qed
qed

lemma multiples_from_one: "multiples 1 b = (b - 1) div 10000000"
proof (induction b)
  case 0
  show ?case by (simp add: multiples_def)
next
  case (Suc b)
  show ?case
  proof (cases "b = 0")
    case True
    then show ?thesis by (simp add: multiples_def)
  next
    case False
    then obtain c where c: "b = Suc c"
      by (cases b) auto
    have "multiples 1 (Suc b) = multiples 1 b + (if b mod 10000000 = 0 then 1 else 0)"
      using False by (simp add: multiples_def)
    also have "\<dots> = c div 10000000 + (if Suc c mod 10000000 = 0 then 1 else 0)"
      using Suc.IH c by simp
    also have "\<dots> = Suc c div 10000000"
      by (simp add: div_Suc)
    finally show ?thesis
      using c by simp
  qed
qed

subsection \<open>The digest buffer and the match lines\<close>

lemma length_le_bytes [simp]: "length (le_bytes n w) = n"
  by (simp add: le_bytes_def)

lemma length_MD5 [simp]: "length (MD5 msg) = 16"
  by (simp add: MD5_def split: prod.split)

lemma length_digest_buffer [simp]: "length (digest_buffer t) = 130"
  by (simp add: digest_buffer_def)

lemma zero_tail_init: "zero_tail init"
  by (simp add: zero_tail_def init_def)

lemma body_buffer:
  assumes "0 \<le> n" and "body around rand p n i s = Inr s1" and "zero_tail s"
  shows "md5 s1 = digest_buffer (tmp s1)" and "zero_tail s1"
proof -
  show "md5 s1 = digest_buffer (tmp s1)"
    using body_fields(4) [OF assms(1,2)] assms(3)
    by (simp add: digest_buffer_def zero_tail_def MD5_DIGEST_LENGTH_def)
  then show "zero_tail s1"
    by (simp add: zero_tail_def digest_buffer_def)
qed

lemma loop_buffer:
  assumes "0 \<le> n" and "loop around rand p n u i s = Inr s'"
  shows "zero_tail s \<longrightarrow> zero_tail s' \<and> (i < u \<longrightarrow> md5 s' = digest_buffer (tmp s'))"
  using assms
proof (rule loop_rule)
  fix i :: "64 word" and s :: state
  assume "\<not> i < u"
  then show "zero_tail s \<longrightarrow> zero_tail s \<and> (i < u \<longrightarrow> md5 s = digest_buffer (tmp s))"
    by simp
next
  fix i :: "64 word" and s s1 s' :: state
  assume lt: "i < u" and b: "body around rand p n i s = Inr s1"
    and ih: "zero_tail s1 \<longrightarrow> zero_tail s' \<and> (i + 1 < u \<longrightarrow> md5 s' = digest_buffer (tmp s'))"
    and run: "loop around rand p n u (i + 1) s1 = Inr s'"
  show "zero_tail s \<longrightarrow> zero_tail s' \<and> (i < u \<longrightarrow> md5 s' = digest_buffer (tmp s'))"
  proof
    assume z: "zero_tail s"
    note b1 = body_buffer [OF assms(1) b z]
    show "zero_tail s' \<and> (i < u \<longrightarrow> md5 s' = digest_buffer (tmp s'))"
    proof (cases "i + 1 < u")
      case True
      with ih b1 show ?thesis by simp
    next
      case False
      then have "s' = s1"
        using run by (simp add: loop_stop)
      with b1 show ?thesis by simp
    qed
  qed
qed

lemma candidates_0 [simp]: "candidates around rand n c 0 = []"
  by (simp add: candidates_def)

lemma candidates_Suc:
  "candidates around rand n c (Suc m) = candidate around rand n c # candidates around rand n (c + n) m"
proof -
  have "[0..<Suc m] = 0 # map Suc [0..<m]"
    by (simp add: upt_conv_Cons map_Suc_upt del: upt_Suc)
  then show ?thesis
    by (simp add: candidates_def comp_def add.assoc del: upt_Suc)
qed

lemma body_found:
  assumes "0 \<le> n" and "body around rand p n i s = Inr s1" and "zero_tail s"
  shows "filter is_Found (out s1) = filter is_Found (out s)
           @ map match_line (filter (matches p) [candidate around rand (nat n) (calls s)])"
proof -
  have t: "tmp s1 = candidate around rand (nat n) (calls s)"
    by (rule body_fields(3) [OF assms(1,2)])
  have d: "md5 s1 = digest_buffer (tmp s1)"
    by (rule body_buffer(1) [OF assms])
  show ?thesis
    by (simp add: body_fields(6) [OF assms(1,2)] d matches_def match_line_def t)
qed

lemma loop_found:
  assumes "0 \<le> n" and "loop around rand p n u i s = Inr s'"
  shows "zero_tail s \<longrightarrow>
     filter is_Found (out s') = filter is_Found (out s)
       @ map match_line (filter (matches p) (candidates around rand (nat n) (calls s) (unat u - unat i)))"
  using assms
proof (rule loop_rule)
  fix i :: "64 word" and s :: state
  assume "\<not> i < u"
  then have "unat u - unat i = 0"
    by (simp add: counter_less)
  then show "zero_tail s \<longrightarrow>
     filter is_Found (out s) = filter is_Found (out s)
       @ map match_line (filter (matches p) (candidates around rand (nat n) (calls s) (unat u - unat i)))"
    by simp
next
  fix i :: "64 word" and s s1 s' :: state
  assume lt: "i < u" and b: "body around rand p n i s = Inr s1"
    and ih: "zero_tail s1 \<longrightarrow>
     filter is_Found (out s') = filter is_Found (out s1)
       @ map match_line (filter (matches p) (candidates around rand (nat n) (calls s1) (unat u - unat (i + 1))))"
  show "zero_tail s \<longrightarrow>
     filter is_Found (out s') = filter is_Found (out s)
       @ map match_line (filter (matches p) (candidates around rand (nat n) (calls s) (unat u - unat i)))"
  proof
    assume z: "zero_tail s"
    have d: "unat u - unat i = Suc (unat u - unat (i + 1))"
      using lt by (simp add: counter_succ [OF lt] counter_less)
    have c: "calls s1 = calls s + nat n"
      by (rule body_fields(2) [OF assms(1) b])
    from ih body_buffer(2) [OF assms(1) b z]
    have "filter is_Found (out s') = filter is_Found (out s1)
       @ map match_line (filter (matches p) (candidates around rand (nat n) (calls s + nat n) (unat u - unat (i + 1))))"
      by (simp add: c)
    then show "filter is_Found (out s') = filter is_Found (out s)
       @ map match_line (filter (matches p) (candidates around rand (nat n) (calls s) (unat u - unat i)))"
      by (simp add: body_found [OF assms(1) b z] d candidates_Suc)
  qed
qed

subsection \<open>Whole runs\<close>

lemma search_Inr:
  "0 \<le> n \<Longrightarrow> \<exists>s. search_md5_containing around rand substr n b = Inr s"
  unfolding search_md5_containing_def by (rule loop_Inr)

lemma init_fields [simp]:
  "tmp init = []" "md5 init = replicate 130 0" "k init = 0" "calls init = 0"
  "out init = []" "iterations init = 0"
  by (simp_all add: init_def)

lemma search_counts:
  assumes "0 \<le> n" and "search_md5_containing around rand substr n b = Inr s"
  shows "iterations s = unat b - 1" and "calls s = nat n * (unat b - 1)"
  using loop_counts [OF assms(1) assms(2) [unfolded search_md5_containing_def]]
  by simp_all

lemma search_found:
  assumes "0 \<le> n" and "search_md5_containing around rand substr n b = Inr s"
  shows "filter is_Found (out s) =
    map match_line (filter (matches (make_pattern substr)) (candidates around rand (nat n) 0 (unat b - 1)))"
  using loop_found [OF assms(1) assms(2) [unfolded search_md5_containing_def]] zero_tail_init
  by simp

lemma search_markers:
  assumes "0 \<le> n" and "search_md5_containing around rand substr n b = Inr s"
  shows "markers (out s) = map (\<lambda>m. sint (of_nat m :: 32 word)) [1..<Suc ((unat b - 1) div 10000000)]"
  using loop_markers [OF assms(1) assms(2) [unfolded search_md5_containing_def]]
  by (simp add: multiples_from_one [unfolded One_nat_def] del: upt_Suc)

lemma search_buffer:
  assumes "0 \<le> n" and "search_md5_containing around rand substr n b = Inr s"
  shows "zero_tail s" and "1 < b \<Longrightarrow> md5 s = digest_buffer (tmp s)"
  using loop_buffer [OF assms(1) assms(2) [unfolded search_md5_containing_def]] zero_tail_init
  by simp_all

lemma sint_small: "m < 2147483648 \<Longrightarrow> sint (of_nat m :: 32 word) = int m"
  by (simp add: signed_of_nat signed_take_bit_int_eq_self)

lemma markers_small:
  assumes "M < 2147483648"
  shows "map (\<lambda>m. sint (of_nat m :: 32 word)) [1..<Suc M] = map int [1..<Suc M]"
  using assms by (intro map_cong refl sint_small) auto

lemma sorted_counters: "sorted_wrt (<) (map int [1..<Suc M])"
  by (simp add: sorted_wrt_map del: upt_Suc)

lemma wrapped_counters:
  assumes "2147483648 \<le> M"
  shows "\<not> sorted_wrt (<) (map (\<lambda>m. sint (of_nat m :: 32 word)) [1..<Suc M])"
proof
  let ?xs = "map (\<lambda>m. sint (of_nat m :: 32 word)) [1..<Suc M]"
  assume "sorted_wrt (<) ?xs"
  moreover have "(0::nat) < 2147483647" and "2147483647 < length ?xs"
    using assms by simp_all
  ultimately have "?xs ! 0 < ?xs ! 2147483647"
    by (rule sorted_wrt_nth_less)
  moreover have "?xs ! 0 = 1"
    using assms by (simp del: upt_Suc)
  moreover have "?xs ! 2147483647 = - 2147483648"
    using assms by (simp del: upt_Suc)
  ultimately show False
    by simp
qed

lemma find_str_empty: "find_str str [] = Some 0"
  by (cases str) simp_all

lemma matches_empty: "matches [] t"
  by (simp add: matches_def find_str_empty)

lemma length_candidates [simp]: "length (candidates around rand n c m) = m"
  by (simp add: candidates_def)

lemma make_pattern_empty: "make_pattern [] = []"
  by (simp add: make_pattern_def)

lemma printed_Inr: "r = Inr s \<Longrightarrow> printed r = out s"
  by (simp add: printed_def)

lemma markers_of_progress:
  "markers (out (progress i s))
     = markers (out s) @ (if unat i mod 10000000 = 0 then [sint (k s + 1)] else [])"
  by (simp add: progress_out markers_append)


lemma MD5_call_tail: "drop 16 (md5 (MD5_call s)) = drop 16 (md5 s)"
  by (simp add: MD5_DIGEST_LENGTH_def)





subsection \<open>The concrete inputs\<close>

lemma charset_bytes:
  "charset = [0x30, 0x31, 0x32, 0x33, 0x34, 0x35, 0x36, 0x37, 0x38, 0x39, 0x61, 0x62,
     0x63, 0x64, 0x65, 0x66, 0x67, 0x68, 0x6a, 0x6b, 0x6c, 0x6d, 0x6e, 0x6f,
     0x70, 0x71, 0x72, 0x73, 0x74, 0x75, 0x76, 0x77, 0x78, 0x79, 0x7a, 0x00]"
  by (simp add: charset_def bytes_def)

lemma upt_10: "[0..<10] = [0, 1, 2, 3, 4, 5, 6, 7, 8, 9]"
  by (simp add: upt_rec)

lemma cycle_candidate: "candidate zero_memory rand_cycle 10 (10 * j) = found_candidate"
  by (simp add: candidate_def upt_10 rand_cycle_def pick_def charset_at_def sizeof_charset_def
      charset_bytes found_candidate_def bytes_def)

lemma cycle_candidates: "candidates zero_memory rand_cycle 10 0 m = replicate m found_candidate"
  by (simp add: candidates_def cycle_candidate map_replicate_const)

lemma MD5_found_candidate: "MD5 found_candidate = found_digest"
  by code_simp

lemma found_matches: "matches (make_pattern quote_eq_quote) found_candidate"
  by (simp add: matches_def digest_buffer_def MD5_found_candidate found_digest_def
      make_pattern_def quote_eq_quote_def strlen_def c_str_def tolower_def)

lemma found_line: "match_line found_candidate = Found found_candidate found_digest"
  by (simp add: match_line_def digest_buffer_def MD5_found_candidate c_str_def)
     (simp add: found_digest_def found_candidate_def bytes_def)

lemma cycle_run:
  "filter is_Found (printed (search_md5_containing zero_memory rand_cycle quote_eq_quote 10 100))
     = replicate 99 (Found found_candidate found_digest)"
proof -
  have n: "(0::int) \<le> 10"
    by simp
  obtain s where s: "search_md5_containing zero_memory rand_cycle quote_eq_quote 10 100 = Inr s"
    using search_Inr [OF n] by blast
  show ?thesis
    by (simp add: printed_Inr [OF s] search_found [OF n s] cycle_candidates found_matches found_line)
qed


lemma MD5_zeros: "MD5 (replicate 10 0x30) = [0xf1, 0xb7, 0x08, 0xbb, 0xa1, 0x7f, 0x1c, 0xe9, 0x48, 0xdc, 0x97, 0x9f, 0x4d, 0x70, 0x92, 0xbc]"
  by code_simp

lemma one_candidate: "candidate zero_memory rand_one 10 c = replicate 10 0x30"
  by (simp add: candidate_def upt_10 rand_one_def pick_def charset_at_def sizeof_charset_def
      charset_bytes)
     (simp add: numeral_eq_Suc)

lemma one_candidates: "candidates zero_memory rand_one 10 0 m = replicate m (replicate 10 0x30)"
  by (simp add: candidates_def one_candidate map_replicate_const)

lemma find_str_zeros: "p \<noteq> 0 \<Longrightarrow> find_str (replicate m 0) (p # ps) = None"
  by (induction m) simp_all

lemma zeros_no_match: "\<not> matches (make_pattern quote_eq_quote) (replicate 10 0x30)"
  by (simp add: matches_def digest_buffer_def MD5_zeros
      make_pattern_def quote_eq_quote_def strlen_def c_str_def tolower_def find_str_zeros)

subsection \<open>Test vectors of RFC 1321\<close>

lemma MD5_empty:
  "MD5 [] = [0xd4, 0x1d, 0x8c, 0xd9, 0x8f, 0x00, 0xb2, 0x04, 0xe9, 0x80, 0x09, 0x98, 0xec, 0xf8, 0x42, 0x7e]"
  by code_simp

lemma MD5_abc:
  "MD5 (bytes ''abc'') = [0x90, 0x01, 0x50, 0x98, 0x3c, 0xd2, 0x4f, 0xb0, 0xd6, 0x96, 0x3f, 0x7d, 0x28, 0xe1, 0x7f, 0x72]"
  by code_simp

subsection \<open>Reading the command line\<close>

lemma digit_cases: "d < 10 \<Longrightarrow> d \<in> {0, 1, 2, 3, 4, 5, 6, 7, 8, 9::nat}"
  by auto

lemma digit_byte:
  assumes "d < 10"
  shows "isdigit (0x30 + of_nat d)" and "\<not> isspace (0x30 + of_nat d)"
    and "(0x30 + of_nat d :: byte) \<noteq> 0" and "(0x30 + of_nat d :: byte) \<noteq> 0x2B"
    and "(0x30 + of_nat d :: byte) \<noteq> 0x2D"
    and "unat ((0x30 + of_nat d :: byte) - 0x30) = d"
  using digit_cases [OF assms] by (auto simp add: isdigit_def isspace_def)

lemma digit_plain: "d < 10 \<Longrightarrow> plain_digit (0x30 + of_nat d)"
  by (simp add: plain_digit_def digit_byte)

lemma decimal_digits: "list_all plain_digit (decimal n)"
proof (induction n rule: decimal.induct)
  case (1 n)
  show ?case
  proof (cases "n < 10")
    case True
    then show ?thesis
      by (subst decimal.simps) (simp add: digit_plain)
  next
    case False
    have "n mod 10 < 10"
      by simp
    with False "1.IH" show ?thesis
      by (subst decimal.simps) (simp add: digit_plain)
  qed
qed

lemma decimal_not_Nil: "decimal n \<noteq> []"
  by (subst decimal.simps) simp

lemma decimal_value: "foldl (\<lambda>a d. 10 * a + unat (d - 0x30)) 0 (decimal n) = n"
proof (induction n rule: decimal.induct)
  case (1 n)
  show ?case
  proof (cases "n < 10")
    case True
    then have "unat ((0x30 + of_nat n :: byte) - 0x30) = n"
      by (rule digit_byte(6))
    with True show ?thesis
      by (subst decimal.simps) (simp del: add_diff_cancel_left')
  next
    case False
    have "n mod 10 < 10"
      by simp
    then have "unat ((0x30 + of_nat (n mod 10) :: byte) - 0x30) = n mod 10"
      by (rule digit_byte(6))
    with False "1.IH" show ?thesis
      by (subst decimal.simps) (simp del: add_diff_cancel_left')
  qed
qed

lemma takeWhile_all: "list_all P xs \<Longrightarrow> takeWhile P xs = xs"
  by (induction xs) simp_all

lemma strtoul_decimal:
  assumes "n < 2 ^ 64"
  shows "strtoul (decimal n) = of_nat n"
proof -
  have all: "list_all plain_digit (decimal n)"
    by (rule decimal_digits)
  obtain c cs where d: "decimal n = c # cs"
    using decimal_not_Nil [of n] by (cases "decimal n") auto
  have c: "plain_digit c"
    using all d by simp
  have "list_all (\<lambda>c. c \<noteq> 0) (decimal n)"
    using all by (simp add: list_all_iff plain_digit_def)
  then have cs: "c_str (decimal n) = decimal n"
    unfolding c_str_def by (rule takeWhile_all)
  have dw: "dropWhile isspace (decimal n) = decimal n"
    using c by (simp add: d plain_digit_def)
  have sign: "hd (decimal n) \<noteq> 0x2B" "hd (decimal n) \<noteq> 0x2D"
    using c by (simp_all add: d plain_digit_def)
  have "list_all isdigit (decimal n)"
    using all by (simp add: list_all_iff plain_digit_def)
  then have tw: "takeWhile isdigit (decimal n) = decimal n"
    by (rule takeWhile_all)
  have "strtoul (decimal n) = (if 2 ^ 64 \<le> n then - 1 else of_nat n)"
    unfolding strtoul_def cs dw Let_def
    by (simp only: sign tw decimal_value simp_thms if_False)
  with assms show ?thesis
    by simp
qed

lemma strtoul_no_number: "starts_no_number s \<Longrightarrow> strtoul s = 0"
  by (cases s) (auto simp add: starts_no_number_def strtoul_def c_str_def Let_def)

lemma int_to_size_t: "n < 2147483648 \<Longrightarrow> (scast (ucast (of_nat n :: 64 word) :: 32 word) :: 64 word) = of_nat n"
  by (simp add: unsigned_of_nat signed_of_nat take_bit_nat_eq_self signed_take_bit_int_eq_self)

lemma minus_one_is_max: "(- 1 :: 64 word) = 0xFFFFFFFFFFFFFFFF"
  by simp

lemma max_through_int:
  "(scast (ucast (0xFFFFFFFFFFFFFFFF :: 64 word) :: 32 word) :: 64 word) = 0xFFFFFFFFFFFFFFFF"
  by simp

lemma main_uses_ulimit:
  "main around rand argv
     = search_md5_containing around rand quote_eq_quote 10 (scast (main_ulimit argv))"
  by (simp add: main_def)

lemma decimal_42: "decimal 42 = bytes ''42''"
  by (simp add: decimal.simps bytes_def)

subsection \<open>Characters of a candidate\<close>

lemma alphabet_bytes:
  "alphabet = [0x30, 0x31, 0x32, 0x33, 0x34, 0x35, 0x36, 0x37, 0x38, 0x39, 0x61, 0x62,
     0x63, 0x64, 0x65, 0x66, 0x67, 0x68, 0x6a, 0x6b, 0x6c, 0x6d, 0x6e, 0x6f,
     0x70, 0x71, 0x72, 0x73, 0x74, 0x75, 0x76, 0x77, 0x78, 0x79, 0x7a]"
  by (simp add: alphabet_def charset_bytes)

lemma length_generate_string:
  "0 \<le> n \<Longrightarrow> generate_string around rand c n = Inr (candidate around rand (nat n) c, c + nat n)
     \<and> length (candidate around rand (nat n) c) = nat n"
  by (simp add: generate_string_def candidate_def)

lemma pick_in_alphabet:
  assumes "(scast r :: 64 word) mod sizeof_charset \<noteq> 0"
  shows "pick around r \<in> set alphabet"
proof -
  define x :: "64 word" where "x = scast r mod sizeof_charset"
  have "x < 36"
    unfolding x_def sizeof_charset_def by (rule word_mod_less_divisor) simp
  moreover have "x \<noteq> 0"
    using assms by (simp add: x_def)
  ultimately have lt: "unat (x - 1) < 35"
    by unat_arith
  then have "x - 1 < 36"
    by unat_arith
  then have "pick around r = charset ! unat (x - 1)"
    by (simp add: pick_def charset_at_def x_def sizeof_charset_def)
  also have "\<dots> = alphabet ! unat (x - 1)"
    using lt by (simp add: alphabet_def)
  also have "\<dots> \<in> set alphabet"
    using lt by (intro nth_mem) (simp add: alphabet_bytes)
  finally show ?thesis .
qed

lemma candidate_in_alphabet:
  assumes "\<And>i. i < n \<Longrightarrow> (scast (rand (c + i)) :: 64 word) mod sizeof_charset \<noteq> 0"
  shows "set (candidate around rand n c) \<subseteq> set alphabet"
  using assms by (auto simp add: candidate_def pick_in_alphabet)

section \<open>The claims\<close>

subsection \<open>The candidate generator\<close>

text \<open>
  C1. The generated string has the requested length, but not every character of it comes
  from the character set. The index expression is \<open>(rand() % sizeof(charset)) - 1\<close>:
  when \<open>rand()\<close> returns a multiple of 36, here 36 itself, the index is
  \<open>2^64 - 1\<close> and the character stored is the byte of memory just before the array,
  whatever it is. With zero bytes around the array the one-character candidate is a NUL,
  which is none of the 35 characters of the set. (For all other values of \<open>rand()\<close>
  the character is one of the set: \<open>candidate_in_alphabet\<close>.)
\<close>

theorem generate_string_reads_before_charset:
  "generate_string around rand_36 c 1 = Inr ([around (- 1)], Suc c)
   \<and> generate_string zero_memory rand_36 0 1 = Inr ([0], 1)
   \<and> (0::byte) \<notin> set alphabet"
  by (simp add: generate_string_def pick_def charset_at_def sizeof_charset_def rand_36_def
      zero_memory_def alphabet_bytes)

subsection \<open>The bound taken from the command line\<close>

text \<open>
  C2, as the code has it. \<open>main\<close> passes \<open>ulimit\<close> to the search loop as its bound.
  Without an argument the bound is 100. With an argument the bound is what \<open>strtoul\<close>
  reads from it, stored in an \<open>int\<close>: 0 for an argument that is empty or begins with a
  character that is neither a digit, a sign nor white space, and the number itself for the
  decimal numeral of a number below \<open>2^31\<close>. There is no fallback to 100.
\<close>

theorem main_bound_from_argument:
  "main around rand argv
     = search_md5_containing around rand quote_eq_quote 10 (scast (main_ulimit argv))
   \<and> (length argv \<le> 1 \<longrightarrow> (scast (main_ulimit argv) :: 64 word) = 100)
   \<and> (starts_no_number arg \<longrightarrow> (scast (main_ulimit (prog # arg # rest)) :: 64 word) = 0)
   \<and> (n < 2147483648 \<longrightarrow> (scast (main_ulimit (prog # decimal n # rest)) :: 64 word) = of_nat n)"
proof (intro conjI impI)
  show "main around rand argv
     = search_md5_containing around rand quote_eq_quote 10 (scast (main_ulimit argv))"
    by (rule main_uses_ulimit)
next
  assume "length argv \<le> 1"
  then show "(scast (main_ulimit argv) :: 64 word) = 100"
    by (simp add: main_ulimit_def)
next
  assume "starts_no_number arg"
  then show "(scast (main_ulimit (prog # arg # rest)) :: 64 word) = 0"
    by (simp add: main_ulimit_def strtoul_no_number)
next
  assume n: "n < 2147483648"
  then have "n < 2 ^ 64"
    by simp
  then show "(scast (main_ulimit (prog # decimal n # rest)) :: 64 word) = of_nat n"
    by (simp add: main_ulimit_def strtoul_decimal int_to_size_t [OF n])
qed

text \<open>Instances: no argument, the argument \<open>abc\<close>, the argument \<open>42\<close>.\<close>

theorem main_bound_from_argument_witness:
  "(scast (main_ulimit [bytes ''md5_checker'']) :: 64 word) = 100
   \<and> (scast (main_ulimit [bytes ''md5_checker'', bytes ''abc'']) :: 64 word) = 0
   \<and> (scast (main_ulimit [bytes ''md5_checker'', bytes ''42'']) :: 64 word) = 42"
  using main_bound_from_argument [of zero_memory rand_one "[bytes ''md5_checker'']"
      "bytes ''abc''" "bytes ''md5_checker''" "[]" 42]
  by (simp add: decimal_42 starts_no_number_def bytes_def isdigit_def isspace_def)

text \<open>
  The argument \<open>abc\<close> is not an unsigned integer. The bound is then 0, not 100, and
  the program ends without executing the loop body. The argument \<open>3000000000\<close> is
  an unsigned integer, but it does not fit the \<open>int\<close> variable: the bound is then
  \<open>2^64 - 1294967296\<close>.
\<close>

theorem invalid_argument_gives_bound_zero:
  "(scast (main_ulimit [bytes ''md5_checker'', bytes ''abc'']) :: 64 word) = 0
   \<and> main zero_memory rand_one [bytes ''md5_checker'', bytes ''abc''] = Inr init
   \<and> (scast (main_ulimit [bytes ''md5_checker'', bytes ''3000000000'']) :: 64 word)
       = 0xFFFFFFFFB2D05E00"
proof -
  have "starts_no_number (bytes ''abc'')"
    by (simp add: starts_no_number_def bytes_def isdigit_def isspace_def)
  then have "main_ulimit [bytes ''md5_checker'', bytes ''abc''] = 0"
    by (simp add: main_ulimit_def strtoul_no_number)
  then have "(scast (main_ulimit [bytes ''md5_checker'', bytes ''abc'']) :: 64 word) = 0
   \<and> main zero_memory rand_one [bytes ''md5_checker'', bytes ''abc''] = Inr init"
    by (simp add: main_def search_md5_containing_def loop_stop)
  moreover have "(scast (main_ulimit [bytes ''md5_checker'', bytes ''3000000000'']) :: 64 word)
       = 0xFFFFFFFFB2D05E00"
    by (simp add: main_ulimit_def strtoul_def bytes_def c_str_def isspace_def isdigit_def)
  ultimately show ?thesis
    by simp
qed

subsection \<open>Match lines\<close>

text \<open>
  C3, as the code has it. The match test looks for the bytes of the pattern in the 130
  bytes of \<open>md5\<close>, which hold the raw digest and not a hexadecimal rendering of it. For
  every bound, in particular 100, the match lines of a run are those of the candidates
  whose digest buffer contains the pattern, in the order of the iterations. So a pattern
  with a character that is no hexadecimal digit yields no match line exactly when no
  generated candidate has the pattern's bytes in its raw digest.
\<close>

theorem match_lines_follow_raw_digest:
  "0 \<le> str_size \<longrightarrow>
     filter is_Found (printed (search_md5_containing around rand substr str_size ulimit))
       = map match_line
           (filter (matches (make_pattern substr))
              (candidates around rand (nat str_size) 0 (unat ulimit - 1)))"
proof
  assume n: "0 \<le> str_size"
  obtain s where s: "search_md5_containing around rand substr str_size ulimit = Inr s"
    using search_Inr [OF n] by blast
  show "filter is_Found (printed (search_md5_containing around rand substr str_size ulimit))
       = map match_line
           (filter (matches (make_pattern substr))
              (candidates around rand (nat str_size) 0 (unat ulimit - 1)))"
    by (simp only: printed_Inr [OF s] search_found [OF n s])
qed

text \<open>
  An instance: bound 100 and the pattern \<open>'='\<close> of \<open>main\<close>, when every candidate is
  \<open>0000000000\<close>: its digest does not contain the pattern, and no line is printed.
\<close>

theorem match_lines_follow_raw_digest_witness:
  "filter is_Found (printed (search_md5_containing zero_memory rand_one quote_eq_quote 10 100)) = []"
  using match_lines_follow_raw_digest [of 10 zero_memory rand_one quote_eq_quote 100]
  by (simp add: one_candidates zeros_no_match)

text \<open>
  The pattern \<open>'='\<close> contains the character \<open>=\<close>, which is no hexadecimal digit.
  With bound 100, when every candidate is \<open>0p5wg2y32b\<close>, whose digest is
  \<open>6e622f678941d250273d270f512436dd\<close> and contains the bytes 27 3d 27 of the pattern,
  all 99 iterations print a match line.
\<close>

theorem non_hex_pattern_is_found:
  "filter is_Found (printed (search_md5_containing zero_memory rand_cycle quote_eq_quote 10 100))
     = replicate 99 (Found found_candidate found_digest)
   \<and> 0x3D \<in> set quote_eq_quote \<and> \<not> isxdigit 0x3D"
  by (simp add: cycle_run) (simp add: quote_eq_quote_def isxdigit_def)

subsection \<open>Progress markers\<close>

text \<open>
  C4, as the code has it. For every bound up to 21,474,836,480,000,000 (that is
  \<open>2^31\<close> times 10,000,000) the markers printed are, in this order, those with the
  counters 1, 2, ..., one for each loop counter value below the bound that is a multiple
  of 10,000,000: the counters increase strictly and the first one is 1. One execution
  of the progress step prints one marker when the loop counter is such a multiple and
  none otherwise.
\<close>

theorem progress_markers_count_up:
  "0 \<le> str_size \<and> unat ulimit \<le> 21474836480000000 \<longrightarrow>
     markers (printed (search_md5_containing around rand substr str_size ulimit))
       = map int [1..<Suc (multiples 1 (unat ulimit))]
     \<and> multiples 1 (unat ulimit) = (unat ulimit - 1) div 10000000
     \<and> sorted_wrt (<) (markers (printed (search_md5_containing around rand substr str_size ulimit)))
     \<and> markers (out (progress i s))
         = markers (out s) @ (if unat i mod 10000000 = 0 then [sint (k s + 1)] else [])"
proof
  assume a: "0 \<le> str_size \<and> unat ulimit \<le> 21474836480000000"
  then have n: "0 \<le> str_size"
    by simp
  obtain fin where fin: "search_md5_containing around rand substr str_size ulimit = Inr fin"
    using search_Inr [OF n] by blast
  let ?M = "(unat ulimit - 1) div 10000000"
  have "?M < 2147483648"
    using a by arith
  then have "markers (out fin) = map int [1..<Suc ?M]"
    by (simp only: search_markers [OF n fin] markers_small)
  then show "markers (printed (search_md5_containing around rand substr str_size ulimit))
       = map int [1..<Suc (multiples 1 (unat ulimit))]
     \<and> multiples 1 (unat ulimit) = (unat ulimit - 1) div 10000000
     \<and> sorted_wrt (<) (markers (printed (search_md5_containing around rand substr str_size ulimit)))
     \<and> markers (out (progress i s))
         = markers (out s) @ (if unat i mod 10000000 = 0 then [sint (k s + 1)] else [])"
    by (simp only: printed_Inr [OF fin] multiples_from_one sorted_counters markers_of_progress simp_thms)
qed

text \<open>An instance: the bound 20,000,001 gives the two markers 1 and 2.\<close>

theorem progress_markers_count_up_witness:
  "markers (printed (search_md5_containing zero_memory rand_one quote_eq_quote 10 20000001)) = [1, 2]
   \<and> multiples 1 (unat (20000001 :: 64 word)) = 2
   \<and> sorted_wrt (<) (markers (printed (search_md5_containing zero_memory rand_one quote_eq_quote 10 20000001)))
   \<and> markers (out (progress 10000000 init)) = [1]"
  using progress_markers_count_up [of 10 20000001 zero_memory rand_one quote_eq_quote 10000000 init]
  by (simp add: upt_rec)

text \<open>
  With the largest bound, \<open>2^64 - 1\<close>, more than \<open>2^31\<close> markers are printed. The
  counter \<open>k\<close> is a 32-bit \<open>int\<close>: after 2147483647 comes -2147483648, so the
  counters do not increase strictly. This is the bound that \<open>main\<close> passes when its
  argument is \<open>-1\<close>.
\<close>

theorem progress_counter_wraps:
  "\<not> sorted_wrt (<) (markers (printed
        (search_md5_containing zero_memory rand_one quote_eq_quote 10 0xFFFFFFFFFFFFFFFF)))
   \<and> (scast (main_ulimit [bytes ''md5_checker'', bytes ''-1'']) :: 64 word) = 0xFFFFFFFFFFFFFFFF"
proof -
  have n: "(0::int) \<le> 10"
    by simp
  obtain s where s: "search_md5_containing zero_memory rand_one quote_eq_quote 10 0xFFFFFFFFFFFFFFFF = Inr s"
    using search_Inr [OF n] by blast
  have "(2147483648::nat) \<le> (unat (0xFFFFFFFFFFFFFFFF :: 64 word) - 1) div 10000000"
    by simp
  then have "\<not> sorted_wrt (<) (markers (printed
        (search_md5_containing zero_memory rand_one quote_eq_quote 10 0xFFFFFFFFFFFFFFFF)))"
    by (simp only: printed_Inr [OF s] search_markers [OF n s] wrapped_counters not_False_eq_True)
  moreover have "main_ulimit [bytes ''md5_checker'', bytes ''-1''] = ucast (- 1 :: 64 word)"
    by (simp add: main_ulimit_def strtoul_def bytes_def c_str_def isspace_def isdigit_def)
  then have "(scast (main_ulimit [bytes ''md5_checker'', bytes ''-1'']) :: 64 word) = 0xFFFFFFFFFFFFFFFF"
    by (simp only: minus_one_is_max max_through_int)
  ultimately show ?thesis
    by simp
qed

subsection \<open>An empty range of iterations\<close>

text \<open>
  C5. With iteration bound 0 the loop ends at once: the body is never executed, no call
  of \<open>rand()\<close> is made, and nothing is printed, neither a progress marker nor a match
  line. This holds for every pattern and every candidate length.
\<close>

theorem bound_zero_prints_nothing:
  "search_md5_containing around rand substr str_size 0 = Inr init
   \<and> printed (search_md5_containing around rand substr str_size 0) = []
   \<and> iterations init = 0 \<and> calls init = 0 \<and> out init = []"
  by (simp add: search_md5_containing_def init_def printed_def loop_stop)

subsection \<open>The number of iterations\<close>

text \<open>
  C9. For every bound the body is executed once for each counter value from 1 up to the
  bound minus 1: \<open>unat ulimit - 1\<close> times (none for the bounds 0 and 1), each with
  \<open>str_size\<close> calls of \<open>rand()\<close>. Without a command-line argument \<open>main\<close> uses
  the bound 100, and the body is executed 99 times. The candidate length must not be
  negative; \<open>main\<close> passes 10.
\<close>

theorem body_runs_bound_minus_one:
  "0 \<le> str_size \<longrightarrow>
     (\<exists>s. search_md5_containing around rand substr str_size ulimit = Inr s
        \<and> iterations s = unat ulimit - 1
        \<and> calls s = nat str_size * (unat ulimit - 1))
     \<and> (\<exists>s. main around rand [prog] = Inr s \<and> iterations s = 99 \<and> calls s = 990)"
proof
  assume n: "0 \<le> str_size"
  obtain s where s: "search_md5_containing around rand substr str_size ulimit = Inr s"
    using search_Inr [OF n] by blast
  have m: "main around rand [prog] = search_md5_containing around rand quote_eq_quote 10 100"
    by (simp add: main_def main_ulimit_def)
  have ten: "(0::int) \<le> 10"
    by simp
  obtain s' where s': "search_md5_containing around rand quote_eq_quote 10 100 = Inr s'"
    using search_Inr [OF ten] by blast
  have "iterations s' = 99" and "calls s' = 990"
    using search_counts [OF ten s'] by simp_all
  with m s' s search_counts [OF n s]
  show "(\<exists>s. search_md5_containing around rand substr str_size ulimit = Inr s
        \<and> iterations s = unat ulimit - 1
        \<and> calls s = nat str_size * (unat ulimit - 1))
     \<and> (\<exists>s. main around rand [prog] = Inr s \<and> iterations s = 99 \<and> calls s = 990)"
    by simp
qed

text \<open>An instance: bound 3 gives 2 iterations, and no argument gives 99.\<close>

theorem body_runs_bound_minus_one_witness:
  "(\<exists>s. search_md5_containing zero_memory rand_one quote_eq_quote 10 3 = Inr s
        \<and> iterations s = 2 \<and> calls s = 20)
     \<and> (\<exists>s. main zero_memory rand_one [bytes ''md5_checker''] = Inr s
        \<and> iterations s = 99 \<and> calls s = 990)"
  using body_runs_bound_minus_one [of 10 zero_memory rand_one quote_eq_quote 3 "bytes ''md5_checker''"]
  by simp

text \<open>
  C6. A match does not end the loop. The number of executions of the body depends on the
  bound alone: two runs with the same bound execute it equally often, whatever the
  memory, the random numbers, the patterns and the candidate lengths are, and so however
  many candidates match. With the empty pattern every candidate matches: the run prints
  a match line in every iteration and still executes all \<open>unat ulimit - 1\<close> of them.
\<close>

theorem no_exit_on_match:
  "0 \<le> n1 \<and> 0 \<le> n2 \<longrightarrow>
     (\<exists>s1 s2. search_md5_containing around1 rand1 substr1 n1 ulimit = Inr s1
        \<and> search_md5_containing around2 rand2 substr2 n2 ulimit = Inr s2
        \<and> iterations s1 = iterations s2)
     \<and> (\<exists>s. search_md5_containing around1 rand1 [] n1 ulimit = Inr s
        \<and> length (filter is_Found (out s)) = unat ulimit - 1
        \<and> iterations s = unat ulimit - 1)"
proof
  assume n: "0 \<le> n1 \<and> 0 \<le> n2"
  then have n1: "0 \<le> n1" and n2: "0 \<le> n2"
    by simp_all
  obtain s1 where s1: "search_md5_containing around1 rand1 substr1 n1 ulimit = Inr s1"
    using search_Inr [OF n1] by blast
  obtain s2 where s2: "search_md5_containing around2 rand2 substr2 n2 ulimit = Inr s2"
    using search_Inr [OF n2] by blast
  obtain s where s: "search_md5_containing around1 rand1 [] n1 ulimit = Inr s"
    using search_Inr [OF n1] by blast
  have "iterations s1 = iterations s2"
    by (simp add: search_counts(1) [OF n1 s1] search_counts(1) [OF n2 s2])
  moreover have "length (filter is_Found (out s)) = unat ulimit - 1"
    by (simp add: search_found [OF n1 s] make_pattern_empty matches_empty)
  moreover note search_counts(1) [OF n1 s]
  ultimately show "(\<exists>s1 s2. search_md5_containing around1 rand1 substr1 n1 ulimit = Inr s1
        \<and> search_md5_containing around2 rand2 substr2 n2 ulimit = Inr s2
        \<and> iterations s1 = iterations s2)
     \<and> (\<exists>s. search_md5_containing around1 rand1 [] n1 ulimit = Inr s
        \<and> length (filter is_Found (out s)) = unat ulimit - 1
        \<and> iterations s = unat ulimit - 1)"
    using s1 s2 s by auto
qed

text \<open>An instance: two runs with bound 3 and different patterns and random numbers.\<close>

theorem no_exit_on_match_witness:
  "(\<exists>s1 s2. search_md5_containing zero_memory rand_one quote_eq_quote 10 3 = Inr s1
        \<and> search_md5_containing zero_memory rand_cycle [] 10 3 = Inr s2
        \<and> iterations s1 = iterations s2)
     \<and> (\<exists>s. search_md5_containing zero_memory rand_one [] 10 3 = Inr s
        \<and> length (filter is_Found (out s)) = 2
        \<and> iterations s = 2)"
  using no_exit_on_match [of 10 10 zero_memory rand_one quote_eq_quote 3 zero_memory rand_cycle "[]"]
  by simp

subsection \<open>The string that is searched\<close>




text \<open>
  C10. The buffer \<open>md5\<close> starts as 130 zero bytes. The hash call does not write beyond
  its first 16 bytes, so every execution of the body keeps the bytes 16 to 129 zero, and
  its match test searches the 16 raw digest bytes of the candidate followed by 114 zero
  bytes; no hexadecimal rendering is made. The same holds at the end of every run.
\<close>

theorem digest_tail_stays_zero:
  "zero_tail init
   \<and> drop 16 (md5 (MD5_call s)) = drop 16 (md5 s)
   \<and> (0 \<le> str_size \<and> zero_tail s \<longrightarrow>
        (\<exists>s1. body around rand pattern str_size i s = Inr s1
           \<and> zero_tail s1
           \<and> md5 s1 = MD5 (tmp s1) @ replicate 114 0
           \<and> out s1 = out (progress i s)
                @ (if find_str (MD5 (tmp s1) @ replicate 114 0) pattern \<noteq> None
                   then [Found (c_str (tmp s1)) (c_str (MD5 (tmp s1) @ replicate 114 0))]
                   else [])))
   \<and> (0 \<le> str_size \<longrightarrow>
        (\<exists>s'. search_md5_containing around rand substr str_size ulimit = Inr s'
           \<and> zero_tail s'
           \<and> (1 < ulimit \<longrightarrow> md5 s' = MD5 (tmp s') @ replicate 114 0)))"
proof (intro conjI impI)
  show "zero_tail init"
    by (rule zero_tail_init)
  show "drop 16 (md5 (MD5_call s)) = drop 16 (md5 s)"
    by (rule MD5_call_tail)
next
  assume a: "0 \<le> str_size \<and> zero_tail s"
  then have n: "0 \<le> str_size" and z: "zero_tail s"
    by simp_all
  obtain s1 where b: "body around rand pattern str_size i s = Inr s1"
    using body_Inr [OF n] by blast
  have d: "md5 s1 = MD5 (tmp s1) @ replicate 114 0"
    using body_buffer(1) [OF n b z] by (simp add: digest_buffer_def)
  have "out s1 = out (progress i s)
          @ (if find_str (MD5 (tmp s1) @ replicate 114 0) pattern \<noteq> None
             then [Found (c_str (tmp s1)) (c_str (MD5 (tmp s1) @ replicate 114 0))]
             else [])"
    using body_fields(6) [OF n b] by (simp add: d progress_out)
  with b d body_buffer(2) [OF n b z]
  show "\<exists>s1. body around rand pattern str_size i s = Inr s1
           \<and> zero_tail s1
           \<and> md5 s1 = MD5 (tmp s1) @ replicate 114 0
           \<and> out s1 = out (progress i s)
                @ (if find_str (MD5 (tmp s1) @ replicate 114 0) pattern \<noteq> None
                   then [Found (c_str (tmp s1)) (c_str (MD5 (tmp s1) @ replicate 114 0))]
                   else [])"
    by blast
next
  assume n: "0 \<le> str_size"
  obtain s' where s': "search_md5_containing around rand substr str_size ulimit = Inr s'"
    using search_Inr [OF n] by blast
  have "1 < ulimit \<longrightarrow> md5 s' = MD5 (tmp s') @ replicate 114 0"
    using search_buffer(2) [OF n s'] by (simp add: digest_buffer_def)
  with s' search_buffer(1) [OF n s']
  show "\<exists>s'. search_md5_containing around rand substr str_size ulimit = Inr s'
           \<and> zero_tail s'
           \<and> (1 < ulimit \<longrightarrow> md5 s' = MD5 (tmp s') @ replicate 114 0)"
    by blast
qed

text \<open>An instance: the first iteration, and the run with bound 100.\<close>

theorem digest_tail_stays_zero_witness:
  "(\<exists>s1. body zero_memory rand_one (make_pattern quote_eq_quote) 10 1 init = Inr s1
      \<and> zero_tail s1
      \<and> md5 s1 = MD5 (tmp s1) @ replicate 114 0
      \<and> out s1 = out (progress 1 init)
           @ (if find_str (MD5 (tmp s1) @ replicate 114 0) (make_pattern quote_eq_quote) \<noteq> None
              then [Found (c_str (tmp s1)) (c_str (MD5 (tmp s1) @ replicate 114 0))]
              else []))
   \<and> (\<exists>s'. search_md5_containing zero_memory rand_one quote_eq_quote 10 100 = Inr s'
      \<and> zero_tail s'
      \<and> md5 s' = MD5 (tmp s') @ replicate 114 0)"
  using digest_tail_stays_zero [of init 10 zero_memory rand_one "make_pattern quote_eq_quote" 1
      quote_eq_quote 100]
  by (simp add: zero_tail_init)

end
